theory Spec2Isabelle
  imports Complex_Main "HOL-Library.AList"
begin

section \<open>Python values and primitives the scripts rely on\<close>

text \<open>
  Exceptions that can leave one of the modelled functions. A function that can raise
  returns \<open>error + 'a\<close>, with \<open>Inl\<close> for the exception.
\<close>

datatype error =
    FileNotFoundError string
  | CalledProcessError int string
  | ValueError string
  | KeyError string
  | ZeroDivisionError

text \<open>
  A Python \<open>dict\<close> keeps its keys in insertion order, and the reporting functions
  iterate over \<open>items()\<close>, so a dictionary is an association list with distinct keys:
  \<open>map_of d k\<close> is the lookup, \<open>AList.update k v d\<close> is \<open>d[k] = v\<close> (an
  existing key keeps its position, a new key goes to the end).
\<close>

type_synonym ('k, 'v) dict = "('k \<times> 'v) list"

subsection \<open>Strings\<close>

text \<open>\<open>str.strip()\<close> without argument: the ASCII white space characters.\<close>

definition is_space :: "char \<Rightarrow> bool" where
  "is_space c \<longleftrightarrow> of_char c \<in> {9, 10, 11, 12, 13, 28, 29, 30, 31, 32 :: nat}"

definition strip :: "string \<Rightarrow> string" where
  "strip s = rev (dropWhile is_space (rev (dropWhile is_space s)))"

text \<open>
  \<open>s.split(sep)\<close> for a one-character separator: the pieces between the separators,
  so the empty string splits into one empty piece.
\<close>

fun split :: "char \<Rightarrow> string \<Rightarrow> string list" where
  "split sep [] = [[]]"
| "split sep (c # cs) =
     (if c = sep then [] # split sep cs
      else (case split sep cs of
              [] \<Rightarrow> [[c]]
            | w # ws \<Rightarrow> (c # w) # ws))"

text \<open>\<open>str(n)\<close> for a non-negative integer: its decimal digits.\<close>

function str_nat :: "nat \<Rightarrow> string" where
  "str_nat n = (if n < 10 then [''0123456789'' ! n]
                else str_nat (n div 10) @ [''0123456789'' ! (n mod 10)])"
  by pat_completeness auto
termination
  by (relation "measure id") auto

declare str_nat.simps [simp del]

definition str_int :: "int \<Rightarrow> string" where
  "str_int i = (if i < 0 then CHR ''-'' # str_nat (nat (- i)) else str_nat (nat i))"

text \<open>\<open>s.isascii() and s.isdigit()\<close>, and \<open>int(s)\<close> on such a string.\<close>

definition is_digit :: "char \<Rightarrow> bool" where
  "is_digit c \<longleftrightarrow> 48 \<le> (of_char c :: nat) \<and> (of_char c :: nat) \<le> 57"

definition int_of_digits :: "string \<Rightarrow> nat" where
  "int_of_digits s = foldl (\<lambda>v c. 10 * v + (of_char c - 48)) 0 s"

subsection \<open>The \<open>ipaddress\<close> module\<close>

text \<open>
  The scripts use Python's standard \<open>ipaddress\<close> module, which is not part of the
  repository. Its operations are a parameter of every function that calls them:
  \<^item> \<open>ip_network s\<close> parses a string, \<open>None\<close> standing for the \<open>ValueError\<close> it raises;
  \<^item> \<open>hosts n\<close> is the enumeration \<open>n.hosts()\<close>, in address order;
  \<^item> \<open>str_network\<close> and \<open>str_address\<close> are \<open>str()\<close> on a network and on an address;
  \<^item> \<open>is_private\<close> and \<open>is_loopback\<close> are the address properties of these names.
  The type \<open>'n\<close> is the type of network objects, \<open>'a\<close> the type of address objects.
\<close>

record ('n, 'a) ipaddress =
  ip_network :: "string \<Rightarrow> 'n option"
  hosts :: "'n \<Rightarrow> 'a list"
  str_network :: "'n \<Rightarrow> string"
  str_address :: "'a \<Rightarrow> string"
  is_private :: "'a \<Rightarrow> bool"
  is_loopback :: "'a \<Rightarrow> bool"

subsection \<open>The module's behaviour on IPv4\<close>

text \<open>
  An instance of the parameter, following CPython's \<open>ipaddress\<close> on IPv4, on which the
  definitions below are evaluated. An address is its 32-bit value, a network is its
  network address and its prefix length.
\<close>

type_synonym ipv4_address = nat
type_synonym ipv4_network = "nat \<times> nat"

text \<open>
  \<open>IPv4Network.hosts()\<close>: the addresses strictly between the network address and the
  broadcast address; both addresses of a /31; the single address of a /32.
\<close>

definition ipv4_hosts :: "ipv4_network \<Rightarrow> ipv4_address list" where
  "ipv4_hosts n =
     (case n of (a, p) \<Rightarrow>
        if p = 32 then [a]
        else if p = 31 then [a, a + 1]
        else [a + 1 ..< a + 2 ^ (32 - p) - 1])"

definition ipv4_str_address :: "ipv4_address \<Rightarrow> string" where
  "ipv4_str_address a =
     str_nat (a div 16777216 mod 256) @ ''.'' @ str_nat (a div 65536 mod 256) @ ''.'' @
     str_nat (a div 256 mod 256) @ ''.'' @ str_nat (a mod 256)"

definition ipv4_str_network :: "ipv4_network \<Rightarrow> string" where
  "ipv4_str_network n = (case n of (a, p) \<Rightarrow> ipv4_str_address a @ ''/'' @ str_nat p)"

definition in_network :: "ipv4_address \<Rightarrow> ipv4_network \<Rightarrow> bool" where
  "in_network x n = (case n of (a, p) \<Rightarrow> a \<le> x \<and> x < a + 2 ^ (32 - p))"

text \<open>
  \<open>IPv4Address.is_private\<close>: membership in one of the ranges of the IANA special-purpose
  registry that the module lists, two single addresses excepted.
\<close>

definition ipv4_private_networks :: "ipv4_network list" where
  "ipv4_private_networks =
     [(0, 8),                \<comment> \<open>0.0.0.0/8\<close>
      (167772160, 8),        \<comment> \<open>10.0.0.0/8\<close>
      (2130706432, 8),       \<comment> \<open>127.0.0.0/8\<close>
      (2851995648, 16),      \<comment> \<open>169.254.0.0/16\<close>
      (2886729728, 12),      \<comment> \<open>172.16.0.0/12\<close>
      (3221225472, 24),      \<comment> \<open>192.0.0.0/24\<close>
      (3221225642, 31),      \<comment> \<open>192.0.0.170/31\<close>
      (3221225984, 24),      \<comment> \<open>192.0.2.0/24\<close>
      (3232235520, 16),      \<comment> \<open>192.168.0.0/16\<close>
      (3323068416, 15),      \<comment> \<open>198.18.0.0/15\<close>
      (3325256704, 24),      \<comment> \<open>198.51.100.0/24\<close>
      (3405803776, 24),      \<comment> \<open>203.0.113.0/24\<close>
      (4026531840, 4),       \<comment> \<open>240.0.0.0/4\<close>
      (4294967295, 32)]      \<comment> \<open>255.255.255.255/32\<close>"

definition ipv4_private_networks_exceptions :: "ipv4_network list" where
  "ipv4_private_networks_exceptions =
     [(3221225481, 32),      \<comment> \<open>192.0.0.9/32\<close>
      (3221225482, 32)]      \<comment> \<open>192.0.0.10/32\<close>"

definition ipv4_is_private :: "ipv4_address \<Rightarrow> bool" where
  "ipv4_is_private x \<longleftrightarrow>
     list_ex (in_network x) ipv4_private_networks \<and>
     \<not> list_ex (in_network x) ipv4_private_networks_exceptions"

definition ipv4_is_loopback :: "ipv4_address \<Rightarrow> bool" where
  "ipv4_is_loopback x \<longleftrightarrow> in_network x (2130706432, 8)"

text \<open>
  \<open>ipaddress.ip_network(s)\<close> on the spelling \<open>a.b.c.d\<close> or \<open>a.b.c.d/len\<close>: four decimal
  octets of at most three digits without leading zero, a decimal prefix length of at
  most 32, and no host bit set. Every other string is refused here; the module itself
  also reads IPv6 networks and net masks written as addresses, which this instance
  leaves out.
\<close>

definition parse_octet :: "string \<Rightarrow> nat option" where
  "parse_octet s =
     (if s = [] \<or> \<not> list_all is_digit s \<or> 3 < length s then None
      else if s \<noteq> ''0'' \<and> hd s = CHR ''0'' then None
      else if 255 < int_of_digits s then None
      else Some (int_of_digits s))"

definition parse_address :: "string \<Rightarrow> ipv4_address option" where
  "parse_address s =
     (case map parse_octet (split CHR ''.'' s) of
        [Some a, Some b, Some c, Some d] \<Rightarrow> Some (a * 16777216 + b * 65536 + c * 256 + d)
      | _ \<Rightarrow> None)"

definition parse_prefix :: "string \<Rightarrow> nat option" where
  "parse_prefix s =
     (if s \<noteq> [] \<and> list_all is_digit s \<and> int_of_digits s \<le> 32
      then Some (int_of_digits s) else None)"

definition ipv4_ip_network :: "string \<Rightarrow> ipv4_network option" where
  "ipv4_ip_network s =
     (case split CHR ''/'' s of
        [addr] \<Rightarrow> (case parse_address addr of None \<Rightarrow> None | Some a \<Rightarrow> Some (a, 32))
      | [addr, plen] \<Rightarrow>
          (case (parse_address addr, parse_prefix plen) of
             (Some a, Some p) \<Rightarrow> if a mod 2 ^ (32 - p) = 0 then Some (a, p) else None
           | _ \<Rightarrow> None)
      | _ \<Rightarrow> None)"

definition ipv4 :: "(ipv4_network, ipv4_address) ipaddress" where
  "ipv4 = \<lparr> ip_network = ipv4_ip_network, hosts = ipv4_hosts,
            str_network = ipv4_str_network, str_address = ipv4_str_address,
            is_private = ipv4_is_private, is_loopback = ipv4_is_loopback \<rparr>"

section \<open>The network classifier\<close>

text \<open>
  \<open>is_local_network\<close>: the loop over \<open>network.hosts()\<close> that returns \<open>True\<close> at the
  first private or loopback address and \<open>False\<close> when the enumeration ends.
\<close>

fun is_local_loop :: "('n, 'a) ipaddress \<Rightarrow> 'a list \<Rightarrow> bool" where
  "is_local_loop L [] = False"
| "is_local_loop L (ip # ips) =
     (if is_private L ip \<or> is_loopback L ip then True else is_local_loop L ips)"

definition is_local_network :: "('n, 'a) ipaddress \<Rightarrow> 'n \<Rightarrow> bool" where
  "is_local_network L network = is_local_loop L (hosts L network)"

section \<open>The input loader\<close>

text \<open>
  A row as \<open>csv.DictReader\<close> yields it, reduced to the two columns the loader reads:
  \<open>row.get('network')\<close> and \<open>row.get('postal_code')\<close>, \<open>None\<close> when the column is
  missing. \<open>not v\<close> holds for \<open>None\<close> and for the empty string.
\<close>

type_synonym csv_row = "string option \<times> string option"

definition falsy :: "string option \<Rightarrow> bool" where
  "falsy v \<longleftrightarrow> v = None \<or> v = Some []"

record loader_state =
  networks :: "string list"
  postal_codes :: "(string, string) dict"
  row_count :: nat

text \<open>
  The loop of \<open>process_input_csv\<close> over the rows. \<open>max_networks\<close> is \<open>None\<close> or an
  integer; the test \<open>max_networks and row_count >= max_networks\<close> is false for \<open>None\<close>
  and for 0. A row with a missing field and a row with a local network leave the loop
  body through \<open>continue\<close>; a row whose network raises \<open>ValueError\<close> is caught by the
  handler, after which the statement \<open>row_count += 1\<close> at the end of the body runs.
\<close>

fun process_rows ::
  "('n, 'a) ipaddress \<Rightarrow> int option \<Rightarrow> csv_row list \<Rightarrow> loader_state \<Rightarrow> loader_state" where
  "process_rows L max_networks [] st = st"
| "process_rows L max_networks (row # rows) st =
     (if (case max_networks of None \<Rightarrow> False
          | Some m \<Rightarrow> m \<noteq> 0 \<and> m \<le> int (row_count st))
      then st
      else if falsy (fst row) \<or> falsy (snd row)
      then process_rows L max_networks rows st
      else (case ip_network L (the (fst row)) of
              None \<Rightarrow>
                process_rows L max_networks rows (st\<lparr>row_count := row_count st + 1\<rparr>)
            | Some ip_net \<Rightarrow>
                if is_local_network L ip_net
                then process_rows L max_networks rows st
                else process_rows L max_networks rows
                       (st\<lparr>networks := networks st @ [str_network L ip_net],
                           postal_codes :=
                             AList.update (str_network L ip_net) (the (snd row))
                               (postal_codes st),
                           row_count := row_count st + 1\<rparr>)))"

text \<open>
  \<open>process_input_csv\<close>. The files are a map from a path to the rows that
  \<open>csv.DictReader\<close> reads from the file at that path; a path outside the map is a file
  that does not exist, for which \<open>open\<close> raises \<open>FileNotFoundError\<close>, logged and raised
  again.
\<close>

definition process_input_csv ::
  "('n, 'a) ipaddress \<Rightarrow> (string \<rightharpoonup> csv_row list) \<Rightarrow> string \<Rightarrow> int option
     \<Rightarrow> error + (string list \<times> (string, string) dict)" where
  "process_input_csv L files input_file max_networks =
     (case files input_file of
        None \<Rightarrow> Inl (FileNotFoundError input_file)
      | Some rows \<Rightarrow>
          (let st = process_rows L max_networks rows
                      \<lparr>networks = [], postal_codes = [], row_count = 0\<rparr>
           in Inr (networks st, postal_codes st)))"

section \<open>The availability aggregator\<close>

text \<open>One entry of \<open>networks_and_ips\<close>, a row of the exported file.\<close>

record address_record =
  network :: string
  ip :: string
  postal_code :: string
  reachable :: int

text \<open>
  The statistics are a \<open>defaultdict(lambda: [0, 0])\<close>: reading a key that is missing
  inserts \<open>[0, 0]\<close> for it first. \<open>add_reachable\<close> is \<open>d[k][0] += v\<close>, \<open>add_total\<close> is
  \<open>d[k][1] += v\<close>.
\<close>

type_synonym stats = "(string, int \<times> int) dict"

definition get_default :: "string \<Rightarrow> stats \<Rightarrow> stats" where
  "get_default k d = (case map_of d k of None \<Rightarrow> d @ [(k, (0, 0))] | Some _ \<Rightarrow> d)"

definition add_reachable :: "string \<Rightarrow> int \<Rightarrow> stats \<Rightarrow> stats" where
  "add_reachable k v d = AList.map_entry k (\<lambda>(r, t). (r + v, t)) (get_default k d)"

definition add_total :: "string \<Rightarrow> int \<Rightarrow> stats \<Rightarrow> stats" where
  "add_total k v d = AList.map_entry k (\<lambda>(r, t). (r, t + v)) (get_default k d)"

text \<open>
  The inner loop of \<open>calculate_availability\<close> over the hosts of one network: a row is
  appended for the host, the reachable counter of the postal code is incremented when
  the address string is in \<open>reachable_ips\<close>, and the total counter is incremented.
\<close>

fun host_loop ::
  "('n, 'a) ipaddress \<Rightarrow> string \<Rightarrow> string \<Rightarrow> string set \<Rightarrow> 'a list
     \<Rightarrow> stats \<times> address_record list \<Rightarrow> stats \<times> address_record list" where
  "host_loop L network_str pc reachable_ips [] acc = acc"
| "host_loop L network_str pc reachable_ips (h # hs) acc =
     (let ip_str = str_address L h;
          is_reachable = (ip_str \<in> reachable_ips);
          rows = snd acc @ [\<lparr>network = network_str, ip = ip_str, postal_code = pc,
                             reachable = (if is_reachable then 1 else 0)\<rparr>];
          d = (if is_reachable then add_reachable pc 1 (fst acc) else fst acc)
      in host_loop L network_str pc reachable_ips hs (add_total pc 1 d, rows))"

text \<open>
  The outer loop over the networks: \<open>ipaddress.ip_network\<close> raises \<open>ValueError\<close> on a
  string it cannot read, and \<open>postal_codes[network_str]\<close> raises \<open>KeyError\<close> on a
  missing key; neither is caught.
\<close>

fun network_loop ::
  "('n, 'a) ipaddress \<Rightarrow> (string, string) dict \<Rightarrow> string set \<Rightarrow> string list
     \<Rightarrow> stats \<times> address_record list \<Rightarrow> error + (stats \<times> address_record list)" where
  "network_loop L pcs reachable_ips [] acc = Inr acc"
| "network_loop L pcs reachable_ips (network_str # rest) acc =
     (case ip_network L network_str of
        None \<Rightarrow> Inl (ValueError network_str)
      | Some net \<Rightarrow>
          (case map_of pcs network_str of
             None \<Rightarrow> Inl (KeyError network_str)
           | Some pc \<Rightarrow>
               network_loop L pcs reachable_ips rest
                 (host_loop L network_str pc reachable_ips (hosts L net) acc)))"

text \<open>
  \<open>calculate_availability\<close> of the scanning script. The result pairs the dictionary the
  function returns with the rows it writes to \<open>networks_and_ips.csv\<close>.
\<close>

definition calculate_availability ::
  "('n, 'a) ipaddress \<Rightarrow> string list \<Rightarrow> (string, string) dict \<Rightarrow> string set
     \<Rightarrow> error + (stats \<times> address_record list)" where
  "calculate_availability L nets pcs reachable_ips =
     network_loop L pcs reachable_ips nets ([], [])"

text \<open>
  \<open>calculate_availability\<close> of the visualisation script (the tests import it as
  \<open>viz_calculate_availability\<close>): the fold over the rows of the data frame, then the
  loop that logs \<open>(reachable / total) * 100\<close> for every postal code, where a total of 0
  raises \<open>ZeroDivisionError\<close>. The logging loop visits the items in sorted order; it
  has no result, and every item raises the same exception, so the order of the visit is
  not modelled.
\<close>

fun fold_rows :: "address_record list \<Rightarrow> stats \<Rightarrow> stats" where
  "fold_rows [] d = d"
| "fold_rows (row # rows) d =
     fold_rows rows (add_total (postal_code row) 1
                       (add_reachable (postal_code row) (reachable row) d))"

definition viz_calculate_availability :: "address_record list \<Rightarrow> error + stats" where
  "viz_calculate_availability df =
     (let d = fold_rows df []
      in if list_ex (\<lambda>(pc, (r, t)). t = 0) d then Inl ZeroDivisionError else Inr d)"

section \<open>The reachability source\<close>

text \<open>
  What \<open>get_zmap_scan_results\<close> does to the world, in order: a message to the logger
  (its level is kept, its text is not), a file opened for reading, an external process
  run.
\<close>

datatype level = INFO | WARNING | ERROR

datatype event = Logged level | FileOpened string | ProcessRun "string list"

text \<open>
  The loop \<open>for i, ip in enumerate(network.hosts())\<close> of the simulation: it leaves at
  the first index that is at least 10 and adds the address string at every index that is
  a multiple of 4.
\<close>

fun simulate_hosts :: "('n, 'a) ipaddress \<Rightarrow> nat \<Rightarrow> 'a list \<Rightarrow> string set \<Rightarrow> string set" where
  "simulate_hosts L i [] reachable_ips = reachable_ips"
| "simulate_hosts L i (h # hs) reachable_ips =
     (if 10 \<le> i then reachable_ips
      else simulate_hosts L (i + 1) hs
             (if i mod 4 = 0 then insert (str_address L h) reachable_ips
              else reachable_ips))"

text \<open>
  The loop over the lines of the networks file: an empty line is skipped, and a line
  that \<open>ipaddress.ip_network\<close> refuses is logged as a warning by the handler.
\<close>

fun simulate_networks ::
  "('n, 'a) ipaddress \<Rightarrow> string list \<Rightarrow> string set \<times> event list \<Rightarrow> string set \<times> event list" where
  "simulate_networks L [] acc = acc"
| "simulate_networks L (network_str # rest) acc =
     (if network_str = [] then simulate_networks L rest acc
      else (case ip_network L network_str of
              None \<Rightarrow> simulate_networks L rest (fst acc, snd acc @ [Logged WARNING])
            | Some net \<Rightarrow>
                simulate_networks L rest
                  (simulate_hosts L 0 (hosts L net) (fst acc), snd acc)))"

text \<open>
  \<open>get_zmap_scan_results\<close>. The file system is a map from a path to the text of the
  file there, and \<open>os.path.exists\<close> holds for the paths of the map. \<open>run cmd\<close> is the
  outcome of the external process started with the command line \<open>cmd\<close>: its return
  code, its standard output and its standard error; with \<open>check=True\<close>,
  \<open>subprocess.run\<close> raises \<open>CalledProcessError\<close> for a return code other than 0. The
  result pairs the events, in order, with what the function returns or raises.
\<close>

definition get_zmap_scan_results ::
  "('n, 'a) ipaddress \<Rightarrow> (string \<rightharpoonup> string) \<Rightarrow> (string list \<Rightarrow> int \<times> string \<times> string)
     \<Rightarrow> string \<Rightarrow> string option \<Rightarrow> string \<Rightarrow> int \<Rightarrow> bool
     \<Rightarrow> event list \<times> (error + string set)" where
  "get_zmap_scan_results L fs run networks_file output_file bandwidth port simulation_mode =
     (case fs networks_file of
        None \<Rightarrow> ([], Inl (FileNotFoundError (''Networks file not found: '' @ networks_file)))
      | Some content \<Rightarrow>
          if simulation_mode then
            (let r = simulate_networks L (split CHR 0x0A (strip content))
                       ({}, [Logged INFO, FileOpened networks_file])
             in (snd r @ [Logged INFO], Inr (fst r)))
          else
            (let output_param = (if falsy output_file then [''-o'', ''-'']
                                 else [''-o'', the output_file]);
                 cmd = [''zmap'', ''-p'', str_int port, ''-B'', bandwidth,
                        ''-w'', networks_file] @ output_param
             in (case run cmd of
                   (returncode, stdout, stderr) \<Rightarrow>
                     if returncode \<noteq> 0
                     then ([Logged INFO, ProcessRun cmd, Logged ERROR],
                           Inl (CalledProcessError returncode stderr))
                     else ([Logged INFO, ProcessRun cmd, Logged INFO],
                           Inr (set (split CHR 0x0A (strip stdout)))))))"

section \<open>The reporting functions\<close>






section \<open>Evaluating the IPv4 instance\<close>

lemma ipv4_fields [simp]:
  "ip_network ipv4 = ipv4_ip_network" "hosts ipv4 = ipv4_hosts"
  "str_network ipv4 = ipv4_str_network" "str_address ipv4 = ipv4_str_address"
  "is_private ipv4 = ipv4_is_private" "is_loopback ipv4 = ipv4_is_loopback"
  by (simp_all add: ipv4_def)

lemmas ipv4_parse_defs =
  ipv4_ip_network_def parse_address_def parse_octet_def parse_prefix_def
  is_digit_def int_of_digits_def

lemmas ipv4_print_defs =
  ipv4_hosts_def ipv4_str_address_def ipv4_str_network_def str_nat.simps

lemma parse_8_8_8_0_30: "ipv4_ip_network ''8.8.8.0/30'' = Some (134744064, 30)"
  by (simp add: ipv4_parse_defs)

lemma parse_8_8_8_4_30: "ipv4_ip_network ''8.8.8.4/30'' = Some (134744068, 30)"
  by (simp add: ipv4_parse_defs)

lemma hosts_8_8_8_0_30:
  "map (str_address ipv4) (hosts ipv4 (134744064, 30)) = [''8.8.8.1'', ''8.8.8.2'']"
  by (simp add: ipv4_print_defs)

lemma example_run:
  "calculate_availability ipv4 [''8.8.8.0/30'', ''8.8.8.4/30'']
     [(''8.8.8.0/30'', ''98765''), (''8.8.8.4/30'', ''98765'')] {''8.8.8.1'', ''8.8.8.6''} =
   Inr ([(''98765'', (2, 4))],
        [\<lparr>network = ''8.8.8.0/30'', ip = ''8.8.8.1'', postal_code = ''98765'', reachable = 1\<rparr>,
         \<lparr>network = ''8.8.8.0/30'', ip = ''8.8.8.2'', postal_code = ''98765'', reachable = 0\<rparr>,
         \<lparr>network = ''8.8.8.4/30'', ip = ''8.8.8.5'', postal_code = ''98765'', reachable = 0\<rparr>,
         \<lparr>network = ''8.8.8.4/30'', ip = ''8.8.8.6'', postal_code = ''98765'', reachable = 1\<rparr>])"
  by (simp add: calculate_availability_def parse_8_8_8_0_30 parse_8_8_8_4_30
      ipv4_print_defs add_total_def add_reachable_def get_default_def)

lemmas ipv4_class_defs =
  is_local_network_def ipv4_hosts_def ipv4_is_private_def ipv4_is_loopback_def
  ipv4_private_networks_def ipv4_private_networks_exceptions_def in_network_def

lemma parse_10_0_0_0_30: "ipv4_ip_network ''10.0.0.0/30'' = Some (167772160, 30)"
  by (simp add: ipv4_parse_defs)

lemma parse_not_a_network: "ipv4_ip_network ''not-a-network'' = None"
  by (simp add: ipv4_parse_defs)

lemma str_8_8_8_0_30: "ipv4_str_network (134744064, 30) = ''8.8.8.0/30''"
  by (simp add: ipv4_print_defs)

lemma public_8_8_8_0_30: "\<not> is_local_network ipv4 (134744064, 30)"
  by (simp add: ipv4_class_defs)

lemma local_10_0_0_0_30: "is_local_network ipv4 (167772160, 30)"
  by (simp add: ipv4_class_defs)

lemmas loader_example_simps =
  process_input_csv_def falsy_def parse_8_8_8_0_30 parse_10_0_0_0_30 parse_not_a_network
  str_8_8_8_0_30 public_8_8_8_0_30 local_10_0_0_0_30

section \<open>The classifier looks at every host\<close>

lemma is_local_loop_iff:
  "is_local_loop L ips \<longleftrightarrow> (\<exists>ip\<in>set ips. is_private L ip \<or> is_loopback L ip)"
  by (induction ips) auto

text \<open>
  Claim C3. For every network, \<open>is_local_network\<close> returns true if and only if at
  least one address of the network's host enumeration is private or loopback. So a
  network that holds such an address beside public ones is classified local.
\<close>

theorem is_local_network_iff_some_host:
  "is_local_network L n \<longleftrightarrow> (\<exists>ip\<in>set (hosts L n). is_private L ip \<or> is_loopback L ip)"
  by (simp add: is_local_network_def is_local_loop_iff)

text \<open>
  The network 192.0.2.0/23 holds the private address 192.0.2.1 and the public address
  192.0.3.1, and is classified local.
\<close>

theorem is_local_network_iff_some_host_witness:
  "is_local_network ipv4 (3221225984, 23) \<and>
   3221226241 \<in> set (hosts ipv4 (3221225984, 23)) \<and>
   \<not> is_private ipv4 3221226241 \<and> \<not> is_loopback ipv4 3221226241"
proof -
  have "3221225985 \<in> set (hosts ipv4 (3221225984, 23))"
    by (simp add: ipv4_hosts_def)
  moreover have "is_private ipv4 3221225985"
    by (simp add: ipv4_is_private_def ipv4_private_networks_def
        ipv4_private_networks_exceptions_def in_network_def)
  ultimately have "is_local_network ipv4 (3221225984, 23)"
    using is_local_network_iff_some_host [of ipv4 "(3221225984, 23)"] by blast
  moreover have "3221226241 \<in> set (hosts ipv4 (3221225984, 23))"
    by (simp add: ipv4_hosts_def)
  moreover have "\<not> is_private ipv4 3221226241"
    by (simp add: ipv4_is_private_def ipv4_private_networks_def
        ipv4_private_networks_exceptions_def in_network_def)
  moreover have "\<not> is_loopback ipv4 3221226241"
    by (simp add: ipv4_is_loopback_def in_network_def)
  ultimately show ?thesis by blast
qed

section \<open>The counters of the aggregator\<close>

lemma map_of_get_default:
  "map_of (get_default k d) p =
     (if p = k then (case map_of d k of None \<Rightarrow> Some (0, 0) | Some v \<Rightarrow> Some v) else map_of d p)"
  by (auto simp: get_default_def map_of_append map_add_def split: option.splits)

lemma map_of_add_reachable:
  "map_of (add_reachable k v d) p =
     (if p = k then (case map_of d k of None \<Rightarrow> Some (v, 0) | Some (r, t) \<Rightarrow> Some (r + v, t))
      else map_of d p)"
  by (auto simp: add_reachable_def map_of_map_entry map_of_get_default split: option.splits)

lemma map_of_add_total:
  "map_of (add_total k v d) p =
     (if p = k then (case map_of d k of None \<Rightarrow> Some (0, v) | Some (r, t) \<Rightarrow> Some (r, t + v))
      else map_of d p)"
  by (auto simp: add_total_def map_of_map_entry map_of_get_default split: option.splits)

lemma distinct_get_default:
  "distinct (map fst d) \<Longrightarrow> distinct (map fst (get_default k d))"
  by (auto simp: get_default_def map_of_eq_None_iff split: option.splits)

lemma distinct_add_reachable:
  "distinct (map fst d) \<Longrightarrow> distinct (map fst (add_reachable k v d))"
  by (simp add: add_reachable_def distinct_map_entry distinct_get_default)

lemma distinct_add_total:
  "distinct (map fst d) \<Longrightarrow> distinct (map fst (add_total k v d))"
  by (simp add: add_total_def distinct_map_entry distinct_get_default)

lemma map_entry_id: "AList.map_entry k id d = d"
  by (induction d) auto

lemma get_default_idem: "get_default k (get_default k d) = get_default k d"
  by (auto simp: get_default_def map_of_append split: option.splits)

lemma add_reachable_zero: "add_reachable k 0 d = get_default k d"
  by (simp add: add_reachable_def map_entry_id)

lemma add_total_get_default: "add_total k v (get_default k d) = add_total k v d"
  by (simp add: add_total_def get_default_idem)


lemma fold_rows_append: "fold_rows (xs @ ys) d = fold_rows ys (fold_rows xs d)"
  by (induction xs arbitrary: d) auto

lemma distinct_fold_rows:
  "distinct (map fst d) \<Longrightarrow> distinct (map fst (fold_rows rows d))"
  by (induction rows arbitrary: d) (auto simp: distinct_add_total distinct_add_reachable)

lemma map_of_fold_rows:
  "map_of (fold_rows rows d) p =
     (case map_of d p of
        None \<Rightarrow>
          if filter (\<lambda>row. postal_code row = p) rows = [] then None
          else Some (sum_list (map reachable (filter (\<lambda>row. postal_code row = p) rows)),
                     int (length (filter (\<lambda>row. postal_code row = p) rows)))
      | Some (r, t) \<Rightarrow>
          Some (r + sum_list (map reachable (filter (\<lambda>row. postal_code row = p) rows)),
                t + int (length (filter (\<lambda>row. postal_code row = p) rows))))"
proof (induction rows arbitrary: d)
  case Nil
  then show ?case by (simp split: option.splits)
next
  case (Cons row rows)
  show ?case
    by (simp add: Cons.IH map_of_add_total map_of_add_reachable split: option.splits)
qed

lemma fold_rows_totals_positive:
  assumes "(pc, (r, t)) \<in> set (fold_rows rows [])"
  shows "0 < t"
proof -
  have "distinct (map fst (fold_rows rows []))"
    by (simp add: distinct_fold_rows)
  with assms have "map_of (fold_rows rows []) pc = Some (r, t)"
    by simp
  then show ?thesis
    by (auto simp: map_of_fold_rows split: if_splits)
qed

lemma host_loop_fold:
  "host_loop L ns pc reach hs (d, rows) =
     (fold_rows (map (\<lambda>h. \<lparr>network = ns, ip = str_address L h, postal_code = pc,
                          reachable = (if str_address L h \<in> reach then 1 else 0)\<rparr>) hs) d,
      rows @ map (\<lambda>h. \<lparr>network = ns, ip = str_address L h, postal_code = pc,
                          reachable = (if str_address L h \<in> reach then 1 else 0)\<rparr>) hs)"
proof (induction hs arbitrary: d rows)
  case Nil
  then show ?case by simp
next
  case (Cons h hs)
  show ?case
    by (simp add: Cons.IH Let_def add_reachable_zero add_total_get_default)
qed

lemma network_loop_fold:
  assumes "network_loop L pcs reach nets acc = Inr res"
      and "fst acc = fold_rows (snd acc) []"
      and "\<forall>row\<in>set (snd acc). reachable row = 0 \<or> reachable row = 1"
  shows "fst res = fold_rows (snd res) [] \<and>
         (\<forall>row\<in>set (snd res). reachable row = 0 \<or> reachable row = 1)"
  using assms
proof (induction nets arbitrary: acc)
  case Nil
  then show ?case by simp
next
  case (Cons n nets)
  from Cons.prems(1) obtain net pc where
    parsed: "ip_network L n = Some net" and key: "map_of pcs n = Some pc" and
    rest: "network_loop L pcs reach nets (host_loop L n pc reach (hosts L net) acc) = Inr res"
    by (auto split: option.splits)
  obtain d rows where acc: "acc = (d, rows)"
    by (cases acc)
  show ?case
  proof (rule Cons.IH [OF rest])
    show "fst (host_loop L n pc reach (hosts L net) acc) =
          fold_rows (snd (host_loop L n pc reach (hosts L net) acc)) []"
      using Cons.prems(2) by (simp add: acc host_loop_fold fold_rows_append)
    show "\<forall>row\<in>set (snd (host_loop L n pc reach (hosts L net) acc)).
            reachable row = 0 \<or> reachable row = 1"
      using Cons.prems(3) by (auto simp: acc host_loop_fold)
  qed
qed

lemma network_loop_returns:
  assumes "\<forall>n\<in>set nets. ip_network L n \<noteq> None \<and> map_of pcs n \<noteq> None"
  shows "\<exists>res. network_loop L pcs reach nets acc = Inr res"
  using assms
proof (induction nets arbitrary: acc)
  case Nil
  then show ?case by simp
next
  case (Cons n nets)
  from Cons.prems obtain net pc where
    "ip_network L n = Some net" and "map_of pcs n = Some pc"
    by auto
  moreover have "\<exists>res. network_loop L pcs reach nets
                         (host_loop L n pc reach (hosts L net) acc) = Inr res"
    using Cons.prems by (intro Cons.IH) simp
  ultimately show ?case by simp
qed

lemma sum_list_flags:
  "\<forall>row\<in>set rows. reachable row = 0 \<or> reachable row = 1 \<Longrightarrow>
   sum_list (map reachable rows) = int (length (filter (\<lambda>row. reachable row = 1) rows))"
  by (induction rows) auto

text \<open>
  Claim C1. When every network of the list has a key in \<open>postal_codes\<close> (and is
  a string that \<open>ip_network\<close> reads, without which the call raises),
  \<open>calculate_availability\<close> returns, and for every postal code of the returned
  dictionary the first counter is the number of emitted rows with that postal code and
  \<open>reachable = 1\<close>, the second the number of all emitted rows with that postal code,
  whichever networks they come from.
\<close>

theorem calculate_availability_counts:
  assumes "\<forall>n\<in>set nets. map_of pcs n \<noteq> None"
      and "\<forall>n\<in>set nets. ip_network L n \<noteq> None"
  shows "\<exists>stats rows.
           calculate_availability L nets pcs reachable_ips = Inr (stats, rows) \<and>
           (\<forall>p r t. map_of stats p = Some (r, t) \<longrightarrow>
              r = int (length (filter (\<lambda>row. postal_code row = p \<and> reachable row = 1) rows)) \<and>
              t = int (length (filter (\<lambda>row. postal_code row = p) rows)))"
proof -
  from assms obtain stats rows where
    run: "network_loop L pcs reachable_ips nets ([], []) = Inr (stats, rows)"
    using network_loop_returns [of nets L pcs reachable_ips "([], [])"] by auto
  from network_loop_fold [OF run] have
    fold: "stats = fold_rows rows []" and
    flags: "\<forall>row\<in>set rows. reachable row = 0 \<or> reachable row = 1"
    by simp_all
  have "r = int (length (filter (\<lambda>row. postal_code row = p \<and> reachable row = 1) rows)) \<and>
        t = int (length (filter (\<lambda>row. postal_code row = p) rows))"
    if "map_of stats p = Some (r, t)" for p r t
  proof -
    let ?rs = "filter (\<lambda>row. postal_code row = p) rows"
    from that have r: "r = sum_list (map reachable ?rs)" and t: "t = int (length ?rs)"
      by (simp_all add: fold map_of_fold_rows split: if_splits)
    have "\<forall>row\<in>set ?rs. reachable row = 0 \<or> reachable row = 1"
      using flags by simp
    then have "sum_list (map reachable ?rs) =
               int (length (filter (\<lambda>row. reachable row = 1) ?rs))"
      by (rule sum_list_flags)
    also have "filter (\<lambda>row. reachable row = 1) ?rs =
               filter (\<lambda>row. postal_code row = p \<and> reachable row = 1) rows"
      by (simp add: conj_commute)
    finally show ?thesis using r t by simp
  qed
  with run show ?thesis
    by (auto simp: calculate_availability_def)
qed

text \<open>
  Two /30 networks that share the postal code 98765, with one reachable host each: the
  counters are 2 and 4.
\<close>

theorem calculate_availability_counts_witness:
  "\<exists>stats rows.
     calculate_availability ipv4 [''8.8.8.0/30'', ''8.8.8.4/30'']
       [(''8.8.8.0/30'', ''98765''), (''8.8.8.4/30'', ''98765'')] {''8.8.8.1'', ''8.8.8.6''} =
     Inr (stats, rows) \<and>
     map_of stats ''98765'' = Some (2, 4) \<and>
     2 = int (length (filter (\<lambda>row. postal_code row = ''98765'' \<and> reachable row = 1) rows)) \<and>
     4 = int (length (filter (\<lambda>row. postal_code row = ''98765'') rows))"
proof -
  let ?nets = "[''8.8.8.0/30'', ''8.8.8.4/30'']"
  let ?pcs = "[(''8.8.8.0/30'', ''98765''), (''8.8.8.4/30'', ''98765'')]"
  have keys: "\<forall>n\<in>set ?nets. map_of ?pcs n \<noteq> None"
    by simp
  have parses: "\<forall>n\<in>set ?nets. ip_network ipv4 n \<noteq> None"
    by (simp add: parse_8_8_8_0_30 parse_8_8_8_4_30)
  from calculate_availability_counts [OF keys parses, of "{''8.8.8.1'', ''8.8.8.6''}"]
  obtain stats rows where
    run: "calculate_availability ipv4 ?nets ?pcs {''8.8.8.1'', ''8.8.8.6''} = Inr (stats, rows)" and
    counts: "\<And>p r t. map_of stats p = Some (r, t) \<Longrightarrow>
               r = int (length (filter (\<lambda>row. postal_code row = p \<and> reachable row = 1) rows)) \<and>
               t = int (length (filter (\<lambda>row. postal_code row = p) rows))"
    by blast
  from run have "stats = [(''98765'', (2, 4))]"
    by (simp add: example_run)
  then have found: "map_of stats ''98765'' = Some (2, 4)"
    by simp
  from counts [OF found] run found show ?thesis
    by blast
qed

text \<open>
  Claim C2. Folding the rows that \<open>calculate_availability\<close> of the scanning script
  emits with \<open>calculate_availability\<close> of the visualisation script gives exactly the
  dictionary that the scanning script returned, keys in the same order.
\<close>

theorem direct_fold_round_trip:
  assumes "\<forall>n\<in>set nets. map_of pcs n \<noteq> None"
      and "\<forall>n\<in>set nets. ip_network L n \<noteq> None"
  shows "\<exists>stats rows.
           calculate_availability L nets pcs reachable_ips = Inr (stats, rows) \<and>
           viz_calculate_availability rows = Inr stats"
proof -
  from assms obtain stats rows where
    run: "network_loop L pcs reachable_ips nets ([], []) = Inr (stats, rows)"
    using network_loop_returns [of nets L pcs reachable_ips "([], [])"] by auto
  from network_loop_fold [OF run] have fold: "stats = fold_rows rows []"
    by simp
  have "\<not> list_ex (\<lambda>(pc, (r, t)). t = 0) (fold_rows rows [])"
    using fold_rows_totals_positive [of _ _ _ rows] by (fastforce simp: list_ex_iff)
  then have "viz_calculate_availability rows = Inr stats"
    by (simp add: viz_calculate_availability_def fold)
  with run show ?thesis
    by (auto simp: calculate_availability_def)
qed

theorem direct_fold_round_trip_witness:
  "\<exists>stats rows.
     calculate_availability ipv4 [''8.8.8.0/30'', ''8.8.8.4/30'']
       [(''8.8.8.0/30'', ''98765''), (''8.8.8.4/30'', ''98765'')] {''8.8.8.1'', ''8.8.8.6''} =
     Inr (stats, rows) \<and>
     viz_calculate_availability rows = Inr stats \<and>
     stats = [(''98765'', (2, 4))]"
proof -
  let ?nets = "[''8.8.8.0/30'', ''8.8.8.4/30'']"
  let ?pcs = "[(''8.8.8.0/30'', ''98765''), (''8.8.8.4/30'', ''98765'')]"
  have keys: "\<forall>n\<in>set ?nets. map_of ?pcs n \<noteq> None"
    by simp
  have parses: "\<forall>n\<in>set ?nets. ip_network ipv4 n \<noteq> None"
    by (simp add: parse_8_8_8_0_30 parse_8_8_8_4_30)
  from direct_fold_round_trip [OF keys parses, of "{''8.8.8.1'', ''8.8.8.6''}"]
  obtain stats rows where
    run: "calculate_availability ipv4 ?nets ?pcs {''8.8.8.1'', ''8.8.8.6''} = Inr (stats, rows)" and
    fold: "viz_calculate_availability rows = Inr stats"
    by blast
  from run have "stats = [(''98765'', (2, 4))]"
    by (simp add: example_run)
  with run fold show ?thesis
    by blast
qed

section \<open>What the loader returns\<close>






text \<open>
  Claim C5. With the cap \<open>max_networks = 1\<close>, a first row whose network string is
  not a network uses the cap up, and the valid second row is not read; a first row that
  is skipped for a local network or for an empty field does not use it up.
\<close>

theorem invalid_row_counts_toward_cap:
  "process_input_csv ipv4
     [''networks.csv'' \<mapsto> [(Some ''not-a-network'', Some ''11111''),
                            (Some ''8.8.8.0/30'', Some ''98765'')]]
     ''networks.csv'' (Some 1) = Inr ([], []) \<and>
   process_input_csv ipv4
     [''networks.csv'' \<mapsto> [(Some ''10.0.0.0/30'', Some ''67890''),
                            (Some ''8.8.8.0/30'', Some ''98765'')]]
     ''networks.csv'' (Some 1) = Inr ([''8.8.8.0/30''], [(''8.8.8.0/30'', ''98765'')]) \<and>
   process_input_csv ipv4
     [''networks.csv'' \<mapsto> [(Some '''', Some ''11111''),
                            (Some ''8.8.8.0/30'', Some ''98765'')]]
     ''networks.csv'' (Some 1) = Inr ([''8.8.8.0/30''], [(''8.8.8.0/30'', ''98765'')])"
  by (simp add: loader_example_simps)

section \<open>The simulated scan\<close>

subsection \<open>The marks of one network\<close>

lemma marked_indices_Cons:
  "{j. j < Suc n \<and> i + j < 10 \<and> (i + j) mod 4 = 0} =
     (if i < 10 \<and> i mod 4 = 0 then {0} else {}) \<union>
     Suc ` {j. j < n \<and> Suc i + j < 10 \<and> (Suc i + j) mod 4 = 0}"
proof (rule set_eqI)
  fix j
  show "j \<in> {j. j < Suc n \<and> i + j < 10 \<and> (i + j) mod 4 = 0} \<longleftrightarrow>
        j \<in> (if i < 10 \<and> i mod 4 = 0 then {0} else {}) \<union>
            Suc ` {j. j < n \<and> Suc i + j < 10 \<and> (Suc i + j) mod 4 = 0}"
    by (cases j) (auto simp: image_iff)
qed

lemma simulate_hosts_set:
  "simulate_hosts L i hs acc =
     acc \<union> (\<lambda>j. str_address L (hs ! j)) ` {j. j < length hs \<and> i + j < 10 \<and> (i + j) mod 4 = 0}"
proof (induction hs arbitrary: i acc)
  case Nil
  then show ?case by simp
next
  case (Cons h hs)
  show ?case
  proof (cases "10 \<le> i")
    case True
    then have "{j. j < length (h # hs) \<and> i + j < 10 \<and> (i + j) mod 4 = 0} = {}"
      by auto
    with True show ?thesis by simp
  next
    case False
    have "(\<lambda>j. str_address L ((h # hs) ! j)) `
            {j. j < length (h # hs) \<and> i + j < 10 \<and> (i + j) mod 4 = 0} =
          (if i mod 4 = 0 then {str_address L h} else {}) \<union>
          (\<lambda>j. str_address L (hs ! j)) `
            {j. j < length hs \<and> Suc i + j < 10 \<and> (Suc i + j) mod 4 = 0}"
      using False by (simp add: marked_indices_Cons image_Un image_image)
    with False show ?thesis
      by (simp add: Cons.IH Un_assoc)
  qed
qed


lemma multiples_of_four_below:
  "m \<le> 10 \<Longrightarrow>
   {j. j < m \<and> j mod 4 = 0} =
     (if 8 < m then {0, 4, 8} else if 4 < m then {0, 4} else if 0 < m then {0} else {})"
  for m :: nat
proof -
  assume "m \<le> 10"
  have "j < m \<and> j mod 4 = 0 \<longleftrightarrow> (j = 0 \<and> 0 < m) \<or> (j = 4 \<and> 4 < m) \<or> (j = 8 \<and> 8 < m)" for j
    using \<open>m \<le> 10\<close> by presburger
  then show ?thesis
    by (auto split: if_splits)
qed

lemma card_multiples_of_four_below:
  assumes "m \<le> 10"
  shows "card {j. j < m \<and> j mod 4 = 0} = (m + 3) div 4"
proof -
  consider "8 < m" | "4 < m" "m \<le> 8" | "0 < m" "m \<le> 4" | "m = 0"
    by linarith
  then show ?thesis
  proof cases
    case 1
    with assms have "(m + 3) div 4 = 3" by presburger
    with 1 assms show ?thesis by (simp add: multiples_of_four_below)
  next
    case 2
    then have "(m + 3) div 4 = 2" by presburger
    with 2 assms show ?thesis by (simp add: multiples_of_four_below)
  next
    case 3
    then have "(m + 3) div 4 = 1" by presburger
    with 3 assms show ?thesis by (simp add: multiples_of_four_below)
  next
    case 4
    then show ?thesis by simp
  qed
qed

lemma simulate_hosts_marks:
  "simulate_hosts L 0 hs acc =
     acc \<union> (\<lambda>j. str_address L (hs ! j)) ` {j. j < min 10 (length hs) \<and> j mod 4 = 0}"
proof -
  have "{j. j < length hs \<and> 0 + j < 10 \<and> (0 + j) mod 4 = 0} =
        {j. j < min 10 (length hs) \<and> j mod 4 = 0}"
    by auto
  then show ?thesis
    by (simp only: simulate_hosts_set)
qed

lemma simulate_hosts_acc:
  "simulate_hosts L 0 hs acc = acc \<union> simulate_hosts L 0 hs {}"
  by (simp add: simulate_hosts_marks [of L hs acc] simulate_hosts_marks [of L hs "{}"])

lemma simulate_hosts_take:
  "simulate_hosts L 0 hs {} = simulate_hosts L 0 (take 10 hs) {}"
proof -
  have "(\<lambda>j. str_address L (take 10 hs ! j)) ` {j. j < min 10 (length hs) \<and> j mod 4 = 0} =
        (\<lambda>j. str_address L (hs ! j)) ` {j. j < min 10 (length hs) \<and> j mod 4 = 0}"
    by (rule image_cong) auto
  then show ?thesis
    by (simp add: simulate_hosts_marks [of L hs "{}"] simulate_hosts_marks [of L "take 10 hs" "{}"]
        min.absorb1 min.commute)
qed

lemma simulate_hosts_ten:
  assumes "10 \<le> length hs"
  shows "simulate_hosts L 0 hs {} =
           {str_address L (hs ! 0), str_address L (hs ! 4), str_address L (hs ! 8)}"
proof -
  from assms have "min 10 (length hs) = 10"
    by simp
  then show ?thesis
    by (simp add: simulate_hosts_marks [of L hs "{}"] multiples_of_four_below)
qed

lemma simulate_hosts_card:
  assumes "distinct (map (str_address L) (take 10 hs))"
  shows "card (simulate_hosts L 0 hs {}) = (min 10 (length hs) + 3) div 4"
proof -
  let ?m = "min 10 (length hs)"
  let ?J = "{j. j < ?m \<and> j mod 4 = 0}"
  have inj: "inj_on (\<lambda>j. str_address L (hs ! j)) ?J"
  proof (rule inj_onI)
    fix i j
    assume i: "i \<in> ?J" and j: "j \<in> ?J"
       and eq: "str_address L (hs ! i) = str_address L (hs ! j)"
    from i j have bounds: "i < length (map (str_address L) (take 10 hs))"
      "j < length (map (str_address L) (take 10 hs))"
      by simp_all
    from i j eq have "map (str_address L) (take 10 hs) ! i = map (str_address L) (take 10 hs) ! j"
      by simp
    with assms bounds show "i = j"
      by (simp only: nth_eq_iff_index_eq)
  qed
  have "simulate_hosts L 0 hs {} = (\<lambda>j. str_address L (hs ! j)) ` ?J"
    by (simp only: simulate_hosts_marks [of L hs "{}"] Un_empty_left)
  then have "card (simulate_hosts L 0 hs {}) = card ?J"
    by (simp only: card_image [OF inj])
  also have "\<dots> = (?m + 3) div 4"
    by (rule card_multiples_of_four_below) simp
  finally show ?thesis .
qed

lemma simulate_networks_union:
  "fst (simulate_networks L lines acc) =
     fst acc \<union> (\<Union>s\<in>set lines.
        if s = [] then {}
        else case ip_network L s of None \<Rightarrow> {}
             | Some net \<Rightarrow> simulate_hosts L 0 (hosts L net) {})"
proof (induction lines arbitrary: acc)
  case Nil
  then show ?case by simp
next
  case (Cons s lines)
  show ?case
  proof (cases "s = []")
    case True
    then show ?thesis by (simp add: Cons.IH)
  next
    case False
    then show ?thesis
      by (cases "ip_network L s")
        (auto simp: Cons.IH simulate_hosts_acc [of L _ "fst acc"])
  qed
qed

lemma simulated_result:
  assumes "fs networks_file = Some content"
  shows "get_zmap_scan_results L fs run networks_file output_file bandwidth port True =
           (snd (simulate_networks L (split CHR 0x0A (strip content))
                   ({}, [Logged INFO, FileOpened networks_file])) @ [Logged INFO],
            Inr (\<Union>s\<in>set (split CHR 0x0A (strip content)).
                   if s = [] then {}
                   else case ip_network L s of None \<Rightarrow> {}
                        | Some net \<Rightarrow> simulate_hosts L 0 (hosts L net) {}))"
  using assms
  by (simp add: get_zmap_scan_results_def Let_def simulate_networks_union)

subsection \<open>Address strings of an IPv4 /24\<close>

lemma int_of_digits_snoc:
  "int_of_digits (xs @ [c]) = 10 * int_of_digits xs + (of_char c - 48)"
  by (simp add: int_of_digits_def)

lemma digit_value: "k < 10 \<Longrightarrow> of_char (''0123456789'' ! k) - 48 = k" for k :: nat
proof -
  assume "k < 10"
  then have "k = 0 \<or> k = 1 \<or> k = 2 \<or> k = 3 \<or> k = 4 \<or> k = 5 \<or> k = 6 \<or> k = 7 \<or>
    k = 8 \<or> k = 9"
    by arith
  then show ?thesis
    by (elim disjE) simp_all
qed

lemma int_of_digits_str_nat: "int_of_digits (str_nat n) = n"
proof (induction n rule: str_nat.induct)
  case (1 n)
  show ?case
  proof (cases "n < 10")
    case True
    then have "str_nat n = [''0123456789'' ! n]"
      by (subst str_nat.simps) (simp only: if_True)
    then have "int_of_digits (str_nat n) = of_char (''0123456789'' ! n) - 48"
      by (simp only: int_of_digits_def foldl.simps mult_zero_right add_0)
    with True show ?thesis
      by (simp only: digit_value)
  next
    case False
    then have "str_nat n = str_nat (n div 10) @ [''0123456789'' ! (n mod 10)]"
      by (subst str_nat.simps) (simp only: if_False)
    then have "int_of_digits (str_nat n) =
               10 * int_of_digits (str_nat (n div 10)) +
               (of_char (''0123456789'' ! (n mod 10)) - 48)"
      by (simp only: int_of_digits_snoc)
    also have "int_of_digits (str_nat (n div 10)) = n div 10"
      using False by (rule "1.IH")
    also have "of_char (''0123456789'' ! (n mod 10)) - 48 = n mod 10"
      by (rule digit_value) simp
    finally show ?thesis
      by (simp only: mult_div_mod_eq)
  qed
qed

lemma str_nat_inject: "str_nat m = str_nat n \<Longrightarrow> m = n"
  by (metis int_of_digits_str_nat)

lemma ipv4_str_address_low_octet:
  assumes "a mod 256 = 0" and "k < 256"
  shows "ipv4_str_address (a + k) =
           str_nat (a div 16777216 mod 256) @ ''.'' @ str_nat (a div 65536 mod 256) @ ''.'' @
           str_nat (a div 256 mod 256) @ ''.'' @ str_nat k"
proof -
  from assms(1) obtain q where q: "a = 256 * q"
    by (auto simp: mod_eq_0_iff_dvd elim: dvdE)
  from assms(2) have low: "(a + k) mod 256 = k" and high: "(a + k) div 256 = a div 256"
    by (simp_all add: q)
  have "(a + k) div 65536 = (a + k) div 256 div 256"
    by (simp add: div_mult2_eq)
  also have "\<dots> = a div 65536"
    by (simp add: high div_mult2_eq)
  finally have h2: "(a + k) div 65536 = a div 65536" .
  have "(a + k) div 16777216 = (a + k) div 256 div 65536"
    by (simp add: div_mult2_eq)
  also have "\<dots> = a div 16777216"
    by (simp add: high div_mult2_eq)
  finally have h3: "(a + k) div 16777216 = a div 16777216" .
  show ?thesis
    by (simp add: ipv4_str_address_def low high h2 h3)
qed

lemma ipv4_str_address_inject_low:
  assumes "a mod 256 = 0" and "j < 256" and "k < 256"
      and "ipv4_str_address (a + j) = ipv4_str_address (a + k)"
  shows "j = k"
  using assms by (simp add: ipv4_str_address_low_octet str_nat_inject)

lemma ipv4_parse_aligned:
  "ipv4_ip_network s = Some (a, p) \<Longrightarrow> a mod 2 ^ (32 - p) = 0"
  by (auto simp: ipv4_ip_network_def split: list.splits option.splits if_splits)

lemma ipv4_parse_nonempty: "ipv4_ip_network s = Some n \<Longrightarrow> s \<noteq> []"
  by (auto simp: ipv4_parse_defs)

lemma ipv4_hosts_24: "ipv4_hosts (a, 24) = [a + 1 ..< a + 255]"
  by (simp add: ipv4_hosts_def add.commute)

lemma parse_8_8_8_0_24: "ipv4_ip_network ''8.8.8.0/24'' = Some (134744064, 24)"
  by (simp add: ipv4_parse_defs)

lemma parse_8_8_4_0_24: "ipv4_ip_network ''8.8.4.0/24'' = Some (134743040, 24)"
  by (simp add: ipv4_parse_defs)

lemma marks_8_8_8_0_24:
  "simulate_hosts ipv4 0 (ipv4_hosts (134744064, 24)) {} = {''8.8.8.1'', ''8.8.8.5'', ''8.8.8.9''}"
  by (auto simp: simulate_hosts_ten ipv4_hosts_24 ipv4_str_address_def str_nat.simps)

lemma marks_8_8_4_0_24:
  "simulate_hosts ipv4 0 (ipv4_hosts (134743040, 24)) {} = {''8.8.4.1'', ''8.8.4.5'', ''8.8.4.9''}"
  by (auto simp: simulate_hosts_ten ipv4_hosts_24 ipv4_str_address_def str_nat.simps)

lemma lines_one: "split CHR 0x0A (strip ''8.8.8.0/24'') = [''8.8.8.0/24'']"
  by (simp add: strip_def is_space_def)

lemma lines_two:
  "split CHR 0x0A (strip ''8.8.8.0/24\<newline>8.8.4.0/24'') = [''8.8.8.0/24'', ''8.8.4.0/24'']"
  by (simp add: strip_def is_space_def)

lemma scan_one:
  "get_zmap_scan_results ipv4 [''networks.txt'' \<mapsto> ''8.8.8.0/24''] (\<lambda>cmd. (0, [], []))
     ''networks.txt'' None ''10M'' 80 True =
   ([Logged INFO, FileOpened ''networks.txt'', Logged INFO],
    Inr {''8.8.8.1'', ''8.8.8.5'', ''8.8.8.9''})"
  by (simp add: get_zmap_scan_results_def lines_one parse_8_8_8_0_24 marks_8_8_8_0_24)

lemma scan_two:
  "snd (get_zmap_scan_results ipv4 [''networks.txt'' \<mapsto> ''8.8.8.0/24\<newline>8.8.4.0/24'']
     (\<lambda>cmd. (0, [], [])) ''networks.txt'' None ''10M'' 80 True) =
   Inr {''8.8.8.1'', ''8.8.8.5'', ''8.8.8.9'', ''8.8.4.1'', ''8.8.4.5'', ''8.8.4.9''}"
proof -
  have "[''networks.txt'' \<mapsto> ''8.8.8.0/24\<newline>8.8.4.0/24''] ''networks.txt'' =
        Some ''8.8.8.0/24\<newline>8.8.4.0/24''"
    by simp
  from simulated_result
    [where L = ipv4 and fs = "[''networks.txt'' \<mapsto> ''8.8.8.0/24\<newline>8.8.4.0/24'']"
       and networks_file = "''networks.txt''", OF this]
  have "snd (get_zmap_scan_results ipv4 [''networks.txt'' \<mapsto> ''8.8.8.0/24\<newline>8.8.4.0/24'']
     (\<lambda>cmd. (0, [], [])) ''networks.txt'' None ''10M'' 80 True) =
     Inr ({''8.8.8.1'', ''8.8.8.5'', ''8.8.8.9''} \<union> {''8.8.4.1'', ''8.8.4.5'', ''8.8.4.9''})"
    by (simp add: lines_two parse_8_8_8_0_24 parse_8_8_4_0_24 marks_8_8_8_0_24
        marks_8_8_4_0_24)
  also have "{''8.8.8.1'', ''8.8.8.5'', ''8.8.8.9''} \<union> {''8.8.4.1'', ''8.8.4.5'', ''8.8.4.9''} =
             {''8.8.8.1'', ''8.8.8.5'', ''8.8.8.9'', ''8.8.4.1'', ''8.8.4.5'', ''8.8.4.9''}"
    by auto
  finally show ?thesis .
qed

lemma ipv4_hosts_24_distinct_strings:
  assumes "a mod 256 = 0"
  shows "distinct (map ipv4_str_address (ipv4_hosts (a, 24)))"
proof -
  have "inj_on ipv4_str_address (set (ipv4_hosts (a, 24)))"
  proof (rule inj_onI)
    fix x y
    assume "x \<in> set (ipv4_hosts (a, 24))" and "y \<in> set (ipv4_hosts (a, 24))"
       and eq: "ipv4_str_address x = ipv4_str_address y"
    then obtain j k where x: "x = a + j" and y: "y = a + k" and j: "j < 256" and k: "k < 256"
      by (auto simp: ipv4_hosts_24 dest!: le_Suc_ex)
    from assms j k eq [unfolded x y] have "j = k"
      by (rule ipv4_str_address_inject_low)
    with x y show "x = y" by simp
  qed
  then show ?thesis
    by (simp add: distinct_map ipv4_hosts_24)
qed

subsection \<open>The share of marked hosts\<close>

text \<open>
  Claim C6, as amended. For a network whose first ten hosts have distinct address
  strings, the simulation marks exactly the hosts whose index in the enumeration is a
  multiple of 4 and below \<open>m\<close>, where \<open>m\<close> is the number of hosts examined, the
  smaller of 10 and the number of hosts: that is \<open>(m + 3) div 4\<close> of the \<open>m\<close> hosts, 3
  of 10 for every network with at least ten hosts. The marks depend on the first ten hosts
  of the enumeration only.
\<close>

theorem simulated_marks_count:
  assumes "distinct (map (str_address L) (take 10 (hosts L net)))"
  shows "card (simulate_hosts L 0 (hosts L net) {}) = (min 10 (length (hosts L net)) + 3) div 4 \<and>
         simulate_hosts L 0 (hosts L net) {} =
           (\<lambda>j. str_address L (hosts L net ! j)) `
             {j. j < min 10 (length (hosts L net)) \<and> j mod 4 = 0} \<and>
         simulate_hosts L 0 (hosts L net) {} = simulate_hosts L 0 (take 10 (hosts L net)) {} \<and>
         (10 \<le> length (hosts L net) \<longrightarrow> card (simulate_hosts L 0 (hosts L net) {}) = 3)"
proof -
  have count: "card (simulate_hosts L 0 (hosts L net) {}) =
               (min 10 (length (hosts L net)) + 3) div 4"
    using assms by (rule simulate_hosts_card)
  moreover have "simulate_hosts L 0 (hosts L net) {} =
           (\<lambda>j. str_address L (hosts L net ! j)) `
             {j. j < min 10 (length (hosts L net)) \<and> j mod 4 = 0}"
    by (simp only: simulate_hosts_marks [of L "hosts L net" "{}"] Un_empty_left)
  moreover have "simulate_hosts L 0 (hosts L net) {} =
                 simulate_hosts L 0 (take 10 (hosts L net)) {}"
    by (rule simulate_hosts_take)
  moreover have "card (simulate_hosts L 0 (hosts L net) {}) = 3"
    if "10 \<le> length (hosts L net)"
    using that count by simp
  ultimately show ?thesis by blast
qed

text \<open>
  The file with the one line 8.8.8.0/24: ten hosts are examined and three are marked,
  which is not a quarter of ten.
\<close>

theorem quarter_rate_counterexample:
  "get_zmap_scan_results ipv4 [''networks.txt'' \<mapsto> ''8.8.8.0/24''] (\<lambda>cmd. (0, [], []))
     ''networks.txt'' None ''10M'' 80 True =
   ([Logged INFO, FileOpened ''networks.txt'', Logged INFO],
    Inr {''8.8.8.1'', ''8.8.8.5'', ''8.8.8.9''}) \<and>
   length (take 10 (hosts ipv4 (134744064, 24))) = 10 \<and>
   card {''8.8.8.1'', ''8.8.8.5'', ''8.8.8.9''} = 3 \<and>
   100 * card {''8.8.8.1'', ''8.8.8.5'', ''8.8.8.9''} \<noteq>
     25 * length (take 10 (hosts ipv4 (134744064, 24)))"
  by (simp add: scan_one ipv4_hosts_24)

text \<open>
  For 8.8.8.0/24 three of the ten examined hosts are marked, for 8.8.8.0/30 one of the
  two.
\<close>

theorem simulated_marks_count_witness:
  "card (simulate_hosts ipv4 0 (hosts ipv4 (134744064, 24)) {}) = 3 \<and>
   min 10 (length (hosts ipv4 (134744064, 24))) = 10 \<and>
   simulate_hosts ipv4 0 (hosts ipv4 (134744064, 24)) {} = {''8.8.8.1'', ''8.8.8.5'', ''8.8.8.9''} \<and>
   card (simulate_hosts ipv4 0 (hosts ipv4 (134744064, 30)) {}) = 1 \<and>
   min 10 (length (hosts ipv4 (134744064, 30))) = 2"
proof -
  have "distinct (map ipv4_str_address (ipv4_hosts (134744064, 24)))"
    by (rule ipv4_hosts_24_distinct_strings) simp
  then have "distinct (take 10 (map ipv4_str_address (ipv4_hosts (134744064, 24))))"
    by (rule distinct_take)
  then have d24: "distinct (map (str_address ipv4) (take 10 (hosts ipv4 (134744064, 24))))"
    by (simp add: take_map)
  have d30: "distinct (map (str_address ipv4) (take 10 (hosts ipv4 (134744064, 30))))"
    by (simp add: ipv4_print_defs)
  have len24: "10 \<le> length (hosts ipv4 (134744064, 24))"
    by (simp add: ipv4_hosts_24)
  have len30: "length (hosts ipv4 (134744064, 30)) = 2"
    by (simp add: ipv4_hosts_def)
  from simulated_marks_count [OF d24] len24
  have c24: "card (simulate_hosts ipv4 0 (hosts ipv4 (134744064, 24)) {}) = 3"
    by blast
  from simulated_marks_count [OF d30]
  have "card (simulate_hosts ipv4 0 (hosts ipv4 (134744064, 30)) {}) =
        (min 10 (length (hosts ipv4 (134744064, 30))) + 3) div 4"
    by blast
  then have c30: "card (simulate_hosts ipv4 0 (hosts ipv4 (134744064, 30)) {}) = 1"
    using len30 by simp
  have m24: "min 10 (length (hosts ipv4 (134744064, 24))) = 10"
    using len24 by simp
  have marks: "simulate_hosts ipv4 0 (hosts ipv4 (134744064, 24)) {} =
               {''8.8.8.1'', ''8.8.8.5'', ''8.8.8.9''}"
    by (simp add: marks_8_8_8_0_24)
  have m30: "min 10 (length (hosts ipv4 (134744064, 30))) = 2"
    using len30 by simp
  from c24 m24 marks c30 m30 show ?thesis
    by (intro conjI)
qed

subsection \<open>The marks of a /24 network\<close>

text \<open>
  Claim C7. In simulation mode, for every line of the networks file that is a /24
  network, the addresses that the loop over this network adds to \<open>reachable_ips\<close> are
  the three at the indices 0, 4 and 8 of its host enumeration; they are in the returned
  set; and no host of the network at another index, in particular none at index 10 or
  beyond, is among them.
\<close>

theorem simulated_slash24_marks:
  assumes "fs networks_file = Some content"
      and "s \<in> set (split CHR 0x0A (strip content))"
      and "ip_network ipv4 s = Some (a, 24)"
  shows "(\<exists>events R.
            get_zmap_scan_results ipv4 fs run networks_file output_file bandwidth port True =
              (events, Inr R) \<and>
            simulate_hosts ipv4 0 (hosts ipv4 (a, 24)) {} \<subseteq> R) \<and>
         simulate_hosts ipv4 0 (hosts ipv4 (a, 24)) {} =
           {str_address ipv4 (hosts ipv4 (a, 24) ! 0),
            str_address ipv4 (hosts ipv4 (a, 24) ! 4),
            str_address ipv4 (hosts ipv4 (a, 24) ! 8)} \<and>
         card (simulate_hosts ipv4 0 (hosts ipv4 (a, 24)) {}) = 3 \<and>
         (\<forall>j<length (hosts ipv4 (a, 24)).
            str_address ipv4 (hosts ipv4 (a, 24) ! j) \<in> simulate_hosts ipv4 0 (hosts ipv4 (a, 24)) {}
            \<longrightarrow> j = 0 \<or> j = 4 \<or> j = 8)"
proof -
  from assms(3) have parsed: "ipv4_ip_network s = Some (a, 24)"
    by simp
  from ipv4_parse_aligned [OF parsed] have aligned: "a mod 256 = 0"
    by simp
  from ipv4_parse_nonempty [OF parsed] have nonempty: "s \<noteq> []" .
  have len: "length (ipv4_hosts (a, 24)) = 254"
    by (simp add: ipv4_hosts_24)
  have nth: "ipv4_hosts (a, 24) ! j = a + (j + 1)" if "j < 254" for j
    using that by (simp add: ipv4_hosts_24)
  have marks: "simulate_hosts ipv4 0 (ipv4_hosts (a, 24)) {} =
                 {ipv4_str_address (a + 1), ipv4_str_address (a + 5), ipv4_str_address (a + 9)}"
    using simulate_hosts_ten [of "ipv4_hosts (a, 24)" ipv4] by (simp add: len nth)
  have inj: "j = k" if "ipv4_str_address (a + j) = ipv4_str_address (a + k)" "j < 256" "k < 256"
    for j k
    using aligned that(2,3,1) by (rule ipv4_str_address_inject_low)
  have distinct3: "ipv4_str_address (a + 1) \<noteq> ipv4_str_address (a + 5)"
    "ipv4_str_address (a + 1) \<noteq> ipv4_str_address (a + 9)"
    "ipv4_str_address (a + 5) \<noteq> ipv4_str_address (a + 9)"
    using inj [of 1 5] inj [of 1 9] inj [of 5 9] by auto
  have card3: "card (simulate_hosts ipv4 0 (ipv4_hosts (a, 24)) {}) = 3"
    using distinct3 by (simp add: marks)
  have only: "j = 0 \<or> j = 4 \<or> j = 8"
    if "j < 254"
      and "ipv4_str_address (ipv4_hosts (a, 24) ! j) \<in> simulate_hosts ipv4 0 (ipv4_hosts (a, 24)) {}"
    for j
  proof -
    from that have "ipv4_str_address (a + (j + 1)) = ipv4_str_address (a + 1) \<or>
                    ipv4_str_address (a + (j + 1)) = ipv4_str_address (a + 5) \<or>
                    ipv4_str_address (a + (j + 1)) = ipv4_str_address (a + 9)"
      by (simp add: marks nth)
    with that(1) show ?thesis
      using inj [of "j + 1" 1] inj [of "j + 1" 5] inj [of "j + 1" 9] by auto
  qed
  have "simulate_hosts ipv4 0 (ipv4_hosts (a, 24)) {} \<subseteq>
        (\<Union>s\<in>set (split CHR 0x0A (strip content)).
           if s = [] then {}
           else case ip_network ipv4 s of None \<Rightarrow> {}
                | Some net \<Rightarrow> simulate_hosts ipv4 0 (hosts ipv4 net) {})"
  proof
    fix x
    assume "x \<in> simulate_hosts ipv4 0 (ipv4_hosts (a, 24)) {}"
    with nonempty parsed
    have "x \<in> (if s = [] then {}
               else case ip_network ipv4 s of None \<Rightarrow> {}
                    | Some net \<Rightarrow> simulate_hosts ipv4 0 (hosts ipv4 net) {})"
      by simp
    with assms(2)
    show "x \<in> (\<Union>s\<in>set (split CHR 0x0A (strip content)).
           if s = [] then {}
           else case ip_network ipv4 s of None \<Rightarrow> {}
                | Some net \<Rightarrow> simulate_hosts ipv4 0 (hosts ipv4 net) {})"
      by (rule UN_I)
  qed
  with simulated_result
    [where fs = fs and networks_file = networks_file and content = content and L = ipv4
       and run = run and output_file = output_file and bandwidth = bandwidth and port = port,
     OF assms(1)]
  have "\<exists>events R.
            get_zmap_scan_results ipv4 fs run networks_file output_file bandwidth port True =
              (events, Inr R) \<and>
            simulate_hosts ipv4 0 (hosts ipv4 (a, 24)) {} \<subseteq> R"
    by simp
  moreover have "simulate_hosts ipv4 0 (hosts ipv4 (a, 24)) {} =
           {str_address ipv4 (hosts ipv4 (a, 24) ! 0),
            str_address ipv4 (hosts ipv4 (a, 24) ! 4),
            str_address ipv4 (hosts ipv4 (a, 24) ! 8)}"
    by (simp add: marks nth)
  moreover have "card (simulate_hosts ipv4 0 (hosts ipv4 (a, 24)) {}) = 3"
    using card3 by simp
  moreover have "\<forall>j<length (hosts ipv4 (a, 24)).
            str_address ipv4 (hosts ipv4 (a, 24) ! j) \<in> simulate_hosts ipv4 0 (hosts ipv4 (a, 24)) {}
            \<longrightarrow> j = 0 \<or> j = 4 \<or> j = 8"
    using only by (simp add: len)
  ultimately show ?thesis
    by (intro conjI)
qed

text \<open>
  A file with the two networks 8.8.8.0/24 and 8.8.4.0/24: three addresses of each are
  returned.
\<close>

theorem simulated_slash24_marks_witness:
  "snd (get_zmap_scan_results ipv4 [''networks.txt'' \<mapsto> ''8.8.8.0/24\<newline>8.8.4.0/24'']
     (\<lambda>cmd. (0, [], [])) ''networks.txt'' None ''10M'' 80 True) =
   Inr {''8.8.8.1'', ''8.8.8.5'', ''8.8.8.9'', ''8.8.4.1'', ''8.8.4.5'', ''8.8.4.9''} \<and>
   simulate_hosts ipv4 0 (hosts ipv4 (134744064, 24)) {} = {''8.8.8.1'', ''8.8.8.5'', ''8.8.8.9''} \<and>
   card (simulate_hosts ipv4 0 (hosts ipv4 (134744064, 24)) {}) = 3 \<and>
   simulate_hosts ipv4 0 (hosts ipv4 (134743040, 24)) {} = {''8.8.4.1'', ''8.8.4.5'', ''8.8.4.9''} \<and>
   card (simulate_hosts ipv4 0 (hosts ipv4 (134743040, 24)) {}) = 3"
proof -
  let ?fs = "[''networks.txt'' \<mapsto> ''8.8.8.0/24\<newline>8.8.4.0/24'']"
  have present: "?fs ''networks.txt'' = Some ''8.8.8.0/24\<newline>8.8.4.0/24''"
    by simp
  have first: "''8.8.8.0/24'' \<in> set (split CHR 0x0A (strip ''8.8.8.0/24\<newline>8.8.4.0/24''))"
    and second: "''8.8.4.0/24'' \<in> set (split CHR 0x0A (strip ''8.8.8.0/24\<newline>8.8.4.0/24''))"
    by (simp_all add: lines_two)
  have p1: "ip_network ipv4 ''8.8.8.0/24'' = Some (134744064, 24)"
    and p2: "ip_network ipv4 ''8.8.4.0/24'' = Some (134743040, 24)"
    by (simp_all add: parse_8_8_8_0_24 parse_8_8_4_0_24)
  from simulated_slash24_marks
    [where fs = ?fs and networks_file = "''networks.txt''" and s = "''8.8.8.0/24''"
       and a = 134744064, OF present first p1]
  have c1: "card (simulate_hosts ipv4 0 (hosts ipv4 (134744064, 24)) {}) = 3"
    by blast
  from simulated_slash24_marks
    [where fs = ?fs and networks_file = "''networks.txt''" and s = "''8.8.4.0/24''"
       and a = 134743040, OF present second p2]
  have c2: "card (simulate_hosts ipv4 0 (hosts ipv4 (134743040, 24)) {}) = 3"
    by blast
  have m1: "simulate_hosts ipv4 0 (hosts ipv4 (134744064, 24)) {} =
            {''8.8.8.1'', ''8.8.8.5'', ''8.8.8.9''}"
    and m2: "simulate_hosts ipv4 0 (hosts ipv4 (134743040, 24)) {} =
            {''8.8.4.1'', ''8.8.4.5'', ''8.8.4.9''}"
    by (simp_all add: marks_8_8_8_0_24 marks_8_8_4_0_24)
  from scan_two c1 c2 m1 m2 show ?thesis
    by (intro conjI)
qed

section \<open>Division by a zero total in the reports\<close>










section \<open>The precondition and the output of the scan\<close>

lemma strip_empty: "strip [] = []"
  by (simp add: strip_def)



text \<open>
  Claim C10. In scan mode, when the external process returns 0 and prints nothing,
  \<open>get_zmap_scan_results\<close> returns the set that holds the empty string, not the
  empty set.
\<close>

theorem empty_scan_output:
  assumes "fs networks_file = Some content"
      and "run ([''zmap'', ''-p'', str_int port, ''-B'', bandwidth, ''-w'', networks_file] @
                (if falsy output_file then [''-o'', ''-''] else [''-o'', the output_file])) =
           (0, [], stderr)"
  shows "snd (get_zmap_scan_results L fs run networks_file output_file bandwidth port False) =
           Inr {[]} \<and>
         snd (get_zmap_scan_results L fs run networks_file output_file bandwidth port False) \<noteq>
           Inr {}"
  using assms by (simp add: get_zmap_scan_results_def Let_def strip_empty)

theorem empty_scan_output_witness:
  "get_zmap_scan_results ipv4 [''networks.txt'' \<mapsto> ''8.8.8.0/24''] (\<lambda>cmd. (0, [], []))
     ''networks.txt'' None ''10M'' 80 False =
   ([Logged INFO,
     ProcessRun [''zmap'', ''-p'', ''80'', ''-B'', ''10M'', ''-w'', ''networks.txt'', ''-o'', ''-''],
     Logged INFO],
    Inr {[]}) \<and>
   snd (get_zmap_scan_results ipv4 [''networks.txt'' \<mapsto> ''8.8.8.0/24''] (\<lambda>cmd. (0, [], []))
     ''networks.txt'' None ''10M'' 80 False) \<noteq> Inr {}"
proof -
  have present: "[''networks.txt'' \<mapsto> ''8.8.8.0/24''] ''networks.txt'' = Some ''8.8.8.0/24''"
    by simp
  have quiet: "(\<lambda>cmd :: string list. (0 :: int, [] :: string, [] :: string))
                 ([''zmap'', ''-p'', str_int 80, ''-B'', ''10M'', ''-w'', ''networks.txt''] @
                  (if falsy None then [''-o'', ''-''] else [''-o'', the None])) = (0, [], [])"
    by simp
  from empty_scan_output
    [where fs = "[''networks.txt'' \<mapsto> ''8.8.8.0/24'']" and networks_file = "''networks.txt''"
       and content = "''8.8.8.0/24''" and run = "\<lambda>cmd. (0, [], [])" and port = 80
       and bandwidth = "''10M''" and output_file = None and stderr = "[]" and L = ipv4,
     OF present quiet]
  have "snd (get_zmap_scan_results ipv4 [''networks.txt'' \<mapsto> ''8.8.8.0/24''] (\<lambda>cmd. (0, [], []))
     ''networks.txt'' None ''10M'' 80 False) \<noteq> Inr {}"
    by blast
  moreover have "get_zmap_scan_results ipv4 [''networks.txt'' \<mapsto> ''8.8.8.0/24'']
     (\<lambda>cmd. (0, [], [])) ''networks.txt'' None ''10M'' 80 False =
   ([Logged INFO,
     ProcessRun [''zmap'', ''-p'', ''80'', ''-B'', ''10M'', ''-w'', ''networks.txt'', ''-o'', ''-''],
     Logged INFO],
    Inr {[]})"
    by (simp add: get_zmap_scan_results_def falsy_def str_int_def str_nat.simps strip_empty)
  ultimately show ?thesis
    by (intro conjI)
qed

end
